theory Spec2Isabelle
  imports Main
begin

section \<open>Exceptions and HTTP status\<close>

text \<open>
  A handler of \<^verbatim>\<open>app.py\<close> either returns a value or raises. A raise is a value of
  \<open>error\<close>: \<open>HTTPException status detail\<close> is the exception the handlers raise
  themselves; the other constructors are exceptions that no handler catches
  (\<open>KeyError\<close> from \<^verbatim>\<open>data['k']\<close>, \<open>TypeError\<close> and \<open>IndexError\<close> from subscripting,
  \<open>ValueError\<close> from the database driver and from bcrypt, \<open>DataError\<close> and
  \<open>IntegrityError\<close> from the database, \<open>ClientError\<close> for anything raised inside the
  catalog client).
\<close>

datatype key = SKey string | IKey int

datatype error =
    HTTPException nat string
  | KeyError key
  | TypeError
  | IndexError
  | ValueError
  | DataError
  | IntegrityError
  | ClientError string

text \<open>
  The status the HTTP boundary answers with: an \<open>HTTPException\<close> carries its own,
  every exception that escapes a handler becomes 500 (Internal Server Error).
\<close>

fun status_code :: "error \<Rightarrow> nat" where
  "status_code (HTTPException s d) = s"
| "status_code (KeyError k) = 500"
| "status_code TypeError = 500"
| "status_code IndexError = 500"
| "status_code ValueError = 500"
| "status_code DataError = 500"
| "status_code IntegrityError = 500"
| "status_code (ClientError m) = 500"

section \<open>Models (app.py, lines 76-89)\<close>

record User =
  u_id :: int
  u_username :: string
  u_password :: string

record LikedSong =
  l_id :: int
  l_user_id :: int
  l_song_id :: string
  l_title :: string
  l_artist :: string
  l_thumbnail :: string

text \<open>
  A \<^verbatim>\<open>str\<close> is a \<open>string\<close>, the list of its characters; they are taken from the 256
  of \<open>char\<close>, so every string here encodes as UTF-8. The columns are typed: a
  \<^verbatim>\<open>String\<close> column holds text without the NUL character, and the driver raises
  \<open>ValueError\<close> on a \<^verbatim>\<open>str\<close> holding NUL that a query binds; an \<^verbatim>\<open>Integer\<close> column
  holds 32-bit signed integers, and the database raises \<open>DataError\<close> on a value out of
  that range that an insert would store.
\<close>

definition has_nul :: "string \<Rightarrow> bool" where
  "has_nul s = (CHR 0x00 \<in> set s)"

definition in_integer :: "int \<Rightarrow> bool" where
  "in_integer n = (- 2147483648 \<le> n \<and> n \<le> 2147483647)"

text \<open>
  The session \<open>db\<close> a handler receives: the rows of the two tables in the order a
  query without a sort key returns them, and the two primary-key sequences.

  \<open>LikedSong.user_id\<close> is declared \<^verbatim>\<open>ForeignKey("users.id")\<close> (line 85). No handler
  creates the tables, so whether the table of the database at hand carries that
  constraint is a fact of the database: the field \<open>user_id_fkey\<close>.
\<close>

record database =
  users :: "User list"
  liked_songs :: "LikedSong list"
  users_id_seq :: int
  liked_songs_id_seq :: int
  user_id_fkey :: bool

definition empty_database :: "bool \<Rightarrow> database" where
  "empty_database fk =
     \<lparr>users = [], liked_songs = [], users_id_seq = 1, liked_songs_id_seq = 1,
      user_id_fkey = fk\<rparr>"

section \<open>Request bodies\<close>

text \<open>
  \<^verbatim>\<open>data: dict\<close> is the JSON body. A key is absent (\<open>None\<close>) or holds a value of the
  type of the column it is compared with or stored in.
\<close>

record auth_data =
  username :: "string option"
  password :: "string option"

record like_data =
  user_id :: "int option"
  song_id :: "string option"
  title :: "string option"
  artist :: "string option"
  thumbnail :: "string option"

text \<open>\<^verbatim>\<open>data['k']\<close>: the value, or \<open>KeyError\<close> when the key is absent.\<close>

definition subscript :: "'a option \<Rightarrow> string \<Rightarrow> error + 'a" where
  "subscript v k = (case v of None \<Rightarrow> Inl (KeyError (SKey k)) | Some x \<Rightarrow> Inr x)"

text \<open>Truth value of \<^verbatim>\<open>data.get('k')\<close> for a string field: absent and empty are false.\<close>

definition truthy :: "string option \<Rightarrow> bool" where
  "truthy v = (case v of None \<Rightarrow> False | Some s \<Rightarrow> s \<noteq> [])"

text \<open>\<^verbatim>\<open>Query.first()\<close>: the first row of the result, or \<open>None\<close>.\<close>

definition first :: "'a list \<Rightarrow> 'a option" where
  "first rows = (case rows of [] \<Rightarrow> None | r # _ \<Rightarrow> Some r)"

section \<open>Auth helpers (lines 113-118)\<close>

text \<open>
  The bcrypt library is not part of the repository: its two functions are parameters.
  \<open>hashpw password salt\<close> stands for
  \<^verbatim>\<open>bcrypt.hashpw(password.encode('utf-8'), salt).decode('utf-8')\<close> and
  \<open>checkpw password hashed\<close> for
  \<^verbatim>\<open>bcrypt.checkpw(password.encode('utf-8'), hashed.encode('utf-8'))\<close>. Each is
  \<open>None\<close> where the call raises: a password the library refuses, a stored value that is
  no hash, a string that does not encode. What is raised there is a \<open>ValueError\<close>
  (\<^verbatim>\<open>UnicodeEncodeError\<close> is one), and neither helper catches it. The salt that
  \<^verbatim>\<open>bcrypt.gensalt()\<close> draws is an argument of \<open>hash_password\<close>.
\<close>

record bcrypt =
  hashpw :: "string \<Rightarrow> string \<Rightarrow> string option"
  checkpw :: "string \<Rightarrow> string \<Rightarrow> bool option"

definition hash_password :: "bcrypt \<Rightarrow> string \<Rightarrow> string \<Rightarrow> error + string" where
  "hash_password B salt pw =
     (case hashpw B pw salt of None \<Rightarrow> Inl ValueError | Some hashed \<Rightarrow> Inr hashed)"

definition verify_password :: "bcrypt \<Rightarrow> string \<Rightarrow> string \<Rightarrow> error + bool" where
  "verify_password B pw hashed =
     (case checkpw B pw hashed of None \<Rightarrow> Inl ValueError | Some ok \<Rightarrow> Inr ok)"

section \<open>Auth routes (lines 161-177)\<close>

datatype register_response = Success bool

datatype login_response = LoginResponse bool int string

text \<open>
  \<^verbatim>\<open>db.add(user); db.commit()\<close>: the driver binds the two strings, the row takes the next
  value of the sequence, which has to be in the range of the \<^verbatim>\<open>Integer\<close> column \<open>id\<close>.
  A commit that raises stores nothing.
\<close>

definition add_user :: "string \<Rightarrow> string \<Rightarrow> database \<Rightarrow> (error + unit) \<times> database" where
  "add_user name hashed db =
     (if has_nul name \<or> has_nul hashed then (Inl ValueError, db)
      else if \<not> in_integer (users_id_seq db) then (Inl DataError, db)
      else (Inr (),
            db\<lparr>users := users db @
                  [\<lparr>u_id = users_id_seq db, u_username = name, u_password = hashed\<rparr>],
               users_id_seq := users_id_seq db + 1\<rparr>))"

definition register ::
  "bcrypt \<Rightarrow> string \<Rightarrow> auth_data \<Rightarrow> database \<Rightarrow> (error + register_response) \<times> database" where
  "register B salt data db =
     (if \<not> truthy (username data) \<or> \<not> truthy (password data)
      then (Inl (HTTPException 400 ''Username and password required''), db)
      else
        (case subscript (username data) ''username'' of
           Inl e \<Rightarrow> (Inl e, db)
         | Inr name \<Rightarrow>
             if has_nul name then (Inl ValueError, db)
             else
             (case first (filter (\<lambda>u. u_username u = name) (users db)) of
                Some existing \<Rightarrow> (Inl (HTTPException 400 ''Username already exists''), db)
              | None \<Rightarrow>
                  (case subscript (password data) ''password'' of
                     Inl e \<Rightarrow> (Inl e, db)
                   | Inr pw \<Rightarrow>
                       (case hash_password B salt pw of
                          Inl e \<Rightarrow> (Inl e, db)
                        | Inr hashed \<Rightarrow>
                            (case add_user name hashed db of
                               (Inl e, db') \<Rightarrow> (Inl e, db')
                             | (Inr u, db') \<Rightarrow> (Inr (Success True), db')))))))"

definition login :: "bcrypt \<Rightarrow> auth_data \<Rightarrow> database \<Rightarrow> error + login_response" where
  "login B data db =
     (case subscript (username data) ''username'' of
        Inl e \<Rightarrow> Inl e
      | Inr name \<Rightarrow>
          if has_nul name then Inl ValueError
          else
          (case first (filter (\<lambda>u. u_username u = name) (users db)) of
             None \<Rightarrow> Inl (HTTPException 401 ''Invalid credentials'')
           | Some user \<Rightarrow>
               (case subscript (password data) ''password'' of
                  Inl e \<Rightarrow> Inl e
                | Inr pw \<Rightarrow>
                    (case verify_password B pw (u_password user) of
                       Inl e \<Rightarrow> Inl e
                     | Inr ok \<Rightarrow>
                         if \<not> ok
                         then Inl (HTTPException 401 ''Invalid credentials'')
                         else Inr (LoginResponse True (u_id user) (u_username user))))))"

section \<open>Likes routes (lines 180-204)\<close>

datatype like_response = Status string

record liked_entry =
  e_id :: string
  e_title :: string
  e_artist :: string
  e_thumbnail :: string

text \<open>
  \<^verbatim>\<open>db.delete(existing); db.commit()\<close> removes the row by its primary key.
\<close>

definition delete_liked_song :: "LikedSong \<Rightarrow> database \<Rightarrow> database" where
  "delete_liked_song existing db =
     db\<lparr>liked_songs := filter (\<lambda>l. l_id l \<noteq> l_id existing) (liked_songs db)\<rparr>"

text \<open>
  \<^verbatim>\<open>db.add(new_like); db.commit()\<close>: the driver binds the strings; the database takes
  \<open>user_id\<close> only in the range of its \<^verbatim>\<open>Integer\<close> column; the row takes the next value
  of the sequence, in the range of the column \<open>id\<close>; where the table carries the foreign
  key and no user has the row's \<open>user_id\<close>, the insert is rejected after the sequence
  value was drawn. A commit that raises stores no row.
\<close>

definition add_liked_song ::
  "int \<Rightarrow> string \<Rightarrow> string \<Rightarrow> string \<Rightarrow> string \<Rightarrow> database \<Rightarrow> (error + unit) \<times> database" where
  "add_liked_song uid sid t a th db =
     (if has_nul sid \<or> has_nul t \<or> has_nul a \<or> has_nul th then (Inl ValueError, db)
      else if \<not> in_integer uid then (Inl DataError, db)
      else if \<not> in_integer (liked_songs_id_seq db) then (Inl DataError, db)
      else if user_id_fkey db \<and> uid \<notin> set (map u_id (users db))
      then (Inl IntegrityError, db\<lparr>liked_songs_id_seq := liked_songs_id_seq db + 1\<rparr>)
      else (Inr (),
            db\<lparr>liked_songs := liked_songs db @
                  [\<lparr>l_id = liked_songs_id_seq db, l_user_id = uid, l_song_id = sid,
                    l_title = t, l_artist = a, l_thumbnail = th\<rparr>],
               liked_songs_id_seq := liked_songs_id_seq db + 1\<rparr>))"

definition toggle_like :: "like_data \<Rightarrow> database \<Rightarrow> (error + like_response) \<times> database" where
  "toggle_like data db =
     (case subscript (user_id data) ''user_id'' of
        Inl e \<Rightarrow> (Inl e, db)
      | Inr uid \<Rightarrow>
     (case subscript (song_id data) ''song_id'' of
        Inl e \<Rightarrow> (Inl e, db)
      | Inr sid \<Rightarrow>
     if has_nul sid then (Inl ValueError, db)
     else
     (case first (filter (\<lambda>l. l_user_id l = uid \<and> l_song_id l = sid) (liked_songs db)) of
        Some existing \<Rightarrow> (Inr (Status ''unliked''), delete_liked_song existing db)
      | None \<Rightarrow>
     (case subscript (title data) ''title'' of
        Inl e \<Rightarrow> (Inl e, db)
      | Inr t \<Rightarrow>
     (case subscript (artist data) ''artist'' of
        Inl e \<Rightarrow> (Inl e, db)
      | Inr a \<Rightarrow>
     (case subscript (thumbnail data) ''thumbnail'' of
        Inl e \<Rightarrow> (Inl e, db)
      | Inr th \<Rightarrow>
     (case add_liked_song uid sid t a th db of
        (Inl e, db') \<Rightarrow> (Inl e, db')
      | (Inr u, db') \<Rightarrow> (Inr (Status ''liked''), db'))))))))"

definition get_liked :: "int \<Rightarrow> database \<Rightarrow> liked_entry list" where
  "get_liked uid db =
     map (\<lambda>l. \<lparr>e_id = l_song_id l, e_title = l_title l, e_artist = l_artist l,
               e_thumbnail = l_thumbnail l\<rparr>)
         (filter (\<lambda>l. l_user_id l = uid) (liked_songs db))"

section \<open>Music routes (lines 207-227)\<close>

text \<open>
  What the catalog client hands back is a Python value built from decoded JSON: the
  handlers only subscript it, slice it and iterate over it.
\<close>

datatype json =
    JNull
  | JBool bool
  | JInt int
  | JStr string
  | JList "json list"
  | JDict "(string \<times> json) list"

text \<open>\<^verbatim>\<open>xs[i]\<close> on a sequence: a negative index counts from the end.\<close>

definition list_index :: "'a list \<Rightarrow> int \<Rightarrow> error + 'a" where
  "list_index xs i =
     (let n = int (length xs); j = (if i < 0 then i + n else i)
      in if 0 \<le> j \<and> j < n then Inr (xs ! nat j) else Inl IndexError)"

text \<open>
  \<^verbatim>\<open>v[k]\<close>: a dict looks the key up (its keys are strings), a list and a string take
  an integer index, anything else is not subscriptable.
\<close>

fun getitem :: "json \<Rightarrow> key \<Rightarrow> error + json" where
  "getitem (JDict kvs) (SKey s) =
     (case map_of kvs s of None \<Rightarrow> Inl (KeyError (SKey s)) | Some v \<Rightarrow> Inr v)"
| "getitem (JDict kvs) (IKey i) = Inl (KeyError (IKey i))"
| "getitem (JList xs) (IKey i) = list_index xs i"
| "getitem (JList xs) (SKey s) = Inl TypeError"
| "getitem (JStr cs) (IKey i) =
     (case list_index cs i of Inl e \<Rightarrow> Inl e | Inr c \<Rightarrow> Inr (JStr [c]))"
| "getitem (JStr cs) (SKey s) = Inl TypeError"
| "getitem JNull k = Inl TypeError"
| "getitem (JBool b) k = Inl TypeError"
| "getitem (JInt n) k = Inl TypeError"

text \<open>
  \<^verbatim>\<open>songs[:15]\<close>: the first 15 elements of a list or characters of a string; any other
  value raises.
\<close>

fun slice15 :: "json \<Rightarrow> error + json list" where
  "slice15 (JList xs) = Inr (take 15 xs)"
| "slice15 (JStr cs) = Inr (map (\<lambda>c. JStr [c]) (take 15 cs))"
| "slice15 (JDict kvs) = Inl TypeError"
| "slice15 JNull = Inl TypeError"
| "slice15 (JBool b) = Inl TypeError"
| "slice15 (JInt n) = Inl TypeError"

text \<open>\<^verbatim>\<open>for r in results\<close>: a list gives its elements, a string its characters, a
  dict its keys; any other value is not iterable.\<close>

fun iterate :: "json \<Rightarrow> error + json list" where
  "iterate (JList xs) = Inr xs"
| "iterate (JStr cs) = Inr (map (\<lambda>c. JStr [c]) cs)"
| "iterate (JDict kvs) = Inr (map (\<lambda>kv. JStr (fst kv)) kvs)"
| "iterate JNull = Inl TypeError"
| "iterate (JBool b) = Inl TypeError"
| "iterate (JInt n) = Inl TypeError"

text \<open>Sequencing of steps that may raise: the first exception ends the computation.\<close>

definition and_then :: "error + 'a \<Rightarrow> ('a \<Rightarrow> error + 'b) \<Rightarrow> error + 'b" where
  "and_then r f = (case r of Inl e \<Rightarrow> Inl e | Inr v \<Rightarrow> f v)"

text \<open>A list comprehension whose element expression may raise.\<close>

fun comprehension :: "('a \<Rightarrow> error + 'b) \<Rightarrow> 'a list \<Rightarrow> error + 'b list" where
  "comprehension f [] = Inr []"
| "comprehension f (x # xs) =
     and_then (f x) (\<lambda>y. and_then (comprehension f xs) (\<lambda>ys. Inr (y # ys)))"

record track =
  t_id :: json
  t_title :: json
  t_artist :: json
  t_thumbnail :: json

text \<open>
  The element expression of both comprehensions:
  \<^verbatim>\<open>{"id": s['videoId'], "title": s['title'], "artist": s['artists'][0]['name'],
    "thumbnail": s['thumbnails'][-1]['url']}\<close>, its subscripts evaluated left to right.
\<close>

definition track_of :: "json \<Rightarrow> error + track" where
  "track_of s =
     and_then (getitem s (SKey ''videoId'')) (\<lambda>vid.
     and_then (getitem s (SKey ''title'')) (\<lambda>ttl.
     and_then (getitem s (SKey ''artists'')) (\<lambda>arts.
     and_then (getitem arts (IKey 0)) (\<lambda>art.
     and_then (getitem art (SKey ''name'')) (\<lambda>nm.
     and_then (getitem s (SKey ''thumbnails'')) (\<lambda>ths.
     and_then (getitem ths (IKey (- 1))) (\<lambda>th.
     and_then (getitem th (SKey ''url'')) (\<lambda>url.
       Inr \<lparr>t_id = vid, t_title = ttl, t_artist = nm, t_thumbnail = url\<rparr>))))))))"

text \<open>
  The catalog client is not part of the repository: \<open>yt\<close> is \<open>None\<close> when its
  construction failed (line 99), else the two methods the handlers call, each returning
  a value or raising.
\<close>

record YTMusic =
  yt_get_charts :: "string \<Rightarrow> error + json"
  yt_search :: "string \<Rightarrow> string \<Rightarrow> error + json"

datatype music_response =
    ErrorTuple string nat
  | Tracks "track list"

definition trending :: "YTMusic option \<Rightarrow> error + music_response" where
  "trending yt =
     (case yt of
        None \<Rightarrow> Inr (ErrorTuple ''YouTube Music service unavailable'' 503)
      | Some client \<Rightarrow>
          (case and_then (yt_get_charts client ''IN'') (\<lambda>charts.
                and_then (getitem charts (SKey ''songs'')) (\<lambda>sec.
                and_then (getitem sec (SKey ''items'')) (\<lambda>songs.
                and_then (slice15 songs) (comprehension track_of)))) of
             Inl e \<Rightarrow> Inr (Tracks [])
           | Inr ts \<Rightarrow> Inr (Tracks ts)))"

definition search :: "YTMusic option \<Rightarrow> string \<Rightarrow> error + music_response" where
  "search yt q =
     (case yt of
        None \<Rightarrow> Inr (ErrorTuple ''YouTube Music service unavailable'' 503)
      | Some client \<Rightarrow>
          (case and_then (yt_search client q ''songs'') (\<lambda>results.
                and_then (iterate results) (comprehension track_of)) of
             Inl e \<Rightarrow> Inr (Tracks [])
           | Inr ts \<Rightarrow> Inr (Tracks ts)))"

section \<open>Sequences of requests\<close>

text \<open>The rows of \<open>liked_songs\<close> that match an (account, track) pair.\<close>

definition pair_rows :: "int \<Rightarrow> string \<Rightarrow> database \<Rightarrow> LikedSong list" where
  "pair_rows uid sid db =
     filter (\<lambda>l. l_user_id l = uid \<and> l_song_id l = sid) (liked_songs db)"


text \<open>A body of \<open>toggle_like\<close> with every field present.\<close>

definition like_request :: "int \<Rightarrow> string \<Rightarrow> string \<Rightarrow> string \<Rightarrow> string \<Rightarrow> like_data" where
  "like_request uid sid t a th =
     \<lparr>user_id = Some uid, song_id = Some sid, title = Some t, artist = Some a,
      thumbnail = Some th\<rparr>"


text \<open>The four operations of the persistence service as requests, one after another.\<close>

datatype request =
    Register string auth_data
  | Login auth_data
  | ToggleLike like_data
  | GetLiked int

fun step :: "bcrypt \<Rightarrow> request \<Rightarrow> database \<Rightarrow> database" where
  "step B (Register salt data) db = snd (register B salt data db)"
| "step B (Login data) db = db"
| "step B (ToggleLike data) db = snd (toggle_like data db)"
| "step B (GetLiked uid) db = db"

fun run :: "bcrypt \<Rightarrow> request list \<Rightarrow> database \<Rightarrow> database" where
  "run B [] db = db"
| "run B (r # rs) db = run B rs (step B r db)"

text \<open>An instance of the bcrypt parameter to evaluate concrete inputs with: the hash
  is the salt, a separator and the reversed password; a password of more than 72
  characters is refused, and so is a stored value without the separator.\<close>

definition toy_bcrypt :: bcrypt where
  "toy_bcrypt =
     \<lparr>hashpw = (\<lambda>pw salt. if length pw > 72 then None
                          else Some (salt @ ''$'' @ rev pw)),
      checkpw = (\<lambda>pw hashed. if length pw > 72 \<or> CHR ''$'' \<notin> set hashed then None
                            else Some (take (Suc (length pw)) (rev hashed) = pw @ ''$''))\<rparr>"

section \<open>Concrete inputs and auxiliary notions\<close>

text \<open>The (account, track) pair a row of \<open>liked_songs\<close> stands for.\<close>

definition pair_key :: "LikedSong \<Rightarrow> int \<times> string" where
  "pair_key l = (l_user_id l, l_song_id l)"

text \<open>The dict \<open>get_liked\<close> returns for a row.\<close>

definition entry_of :: "LikedSong \<Rightarrow> liked_entry" where
  "entry_of l = \<lparr>e_id = l_song_id l, e_title = l_title l, e_artist = l_artist l,
                 e_thumbnail = l_thumbnail l\<rparr>"


text \<open>A database where the pair (1, t) has two rows, as two concurrent toggles can leave it.\<close>

definition db_duplicates :: database where
  "db_duplicates =
     \<lparr>users = [\<lparr>u_id = 1, u_username = ''alice'', u_password = ''s$wp''\<rparr>],
      liked_songs =
        [\<lparr>l_id = 1, l_user_id = 1, l_song_id = ''t'', l_title = ''a'', l_artist = ''b'', l_thumbnail = ''c''\<rparr>,
         \<lparr>l_id = 2, l_user_id = 2, l_song_id = ''t'', l_title = ''a'', l_artist = ''b'', l_thumbnail = ''c''\<rparr>,
         \<lparr>l_id = 3, l_user_id = 1, l_song_id = ''t'', l_title = ''a'', l_artist = ''b'', l_thumbnail = ''c''\<rparr>],
      users_id_seq = 2, liked_songs_id_seq = 4, user_id_fkey = False\<rparr>"

text \<open>A database with two users, the second of whom likes one track.\<close>

definition db_two_users :: database where
  "db_two_users =
     \<lparr>users = [\<lparr>u_id = 1, u_username = ''alice'', u_password = ''s$wp''\<rparr>,
               \<lparr>u_id = 2, u_username = ''bob'', u_password = ''s$dw''\<rparr>],
      liked_songs =
        [\<lparr>l_id = 1, l_user_id = 2, l_song_id = ''T3'', l_title = ''c'', l_artist = ''z'', l_thumbnail = ''w''\<rparr>],
      users_id_seq = 3, liked_songs_id_seq = 2, user_id_fkey = True\<rparr>"

text \<open>
  What an entry is read from: the item is a dict holding \<open>videoId\<close>, \<open>title\<close>, under
  \<open>artists\<close> a non-empty list whose first element is a dict holding \<open>name\<close>, and under
  \<open>thumbnails\<close> a non-empty list whose last element is a dict holding \<open>url\<close>.
\<close>

definition has_fields :: "json \<Rightarrow> json \<Rightarrow> json \<Rightarrow> json \<Rightarrow> json \<Rightarrow> bool" where
  "has_fields s vid ttl nm url =
     (\<exists>kvs akvs rest ths tkvs.
        s = JDict kvs
      \<and> map_of kvs ''videoId'' = Some vid
      \<and> map_of kvs ''title'' = Some ttl
      \<and> map_of kvs ''artists'' = Some (JList (JDict akvs # rest))
      \<and> map_of akvs ''name'' = Some nm
      \<and> map_of kvs ''thumbnails'' = Some (JList ths)
      \<and> ths \<noteq> [] \<and> last ths = JDict tkvs
      \<and> map_of tkvs ''url'' = Some url)"

text \<open>A chart item with two artists and two thumbnails.\<close>

definition demo_song :: json where
  "demo_song =
     JDict [(''videoId'', JStr ''v1''), (''title'', JStr ''Song''),
            (''artists'', JList [JDict [(''name'', JStr ''First'')], JDict [(''name'', JStr ''Second'')]]),
            (''thumbnails'', JList [JDict [(''url'', JStr ''small'')], JDict [(''url'', JStr ''large'')]])]"

text \<open>The entry the handlers build from \<open>demo_song\<close>.\<close>

definition demo_track :: track where
  "demo_track = \<lparr>t_id = JStr ''v1'', t_title = JStr ''Song'', t_artist = JStr ''First'',
                  t_thumbnail = JStr ''large''\<rparr>"

text \<open>A catalog client whose chart lists 16 songs.\<close>

definition demo_client :: YTMusic where
  "demo_client =
     \<lparr>yt_get_charts = (\<lambda>country. Inr (JDict [(''songs'', JDict [(''items'', JList (replicate 16 demo_song))])])),
      yt_search = (\<lambda>q f. Inr (JList [demo_song]))\<rparr>"

text \<open>A catalog client whose every call raises.\<close>

definition failing_client :: YTMusic where
  "failing_client =
     \<lparr>yt_get_charts = (\<lambda>country. Inl (ClientError ''connection refused'')),
      yt_search = (\<lambda>q f. Inl (ClientError ''connection refused''))\<rparr>"

text \<open>What the declared primary keys, the unique username column and the text column
  \<open>song_id\<close> guarantee, with the sequences ahead of every id in use.\<close>

definition constraints :: "database \<Rightarrow> bool" where
  "constraints db =
     (distinct (map u_username (users db))
      \<and> distinct (map u_id (users db))
      \<and> list_all (\<lambda>u. u_id u < users_id_seq db) (users db)
      \<and> distinct (map l_id (liked_songs db))
      \<and> list_all (\<lambda>l. l_id l < liked_songs_id_seq db) (liked_songs db)
      \<and> list_all (\<lambda>l. \<not> has_nul (l_song_id l)) (liked_songs db))"

section \<open>Queries\<close>

lemma first_filter_find: "first (filter P xs) = find P xs"
  by (induction xs) (simp_all add: first_def)

lemma first_filter_None: "first (filter P xs) = None \<longleftrightarrow> (\<forall>x\<in>set xs. \<not> P x)"
  by (auto simp: first_filter_find find_None_iff)

lemma first_filter_Some: "first (filter P xs) = Some x \<Longrightarrow> x \<in> set xs \<and> P x"
  by (auto simp: first_filter_find find_Some_iff)

lemma first_filter_unique:
  assumes "distinct (map f xs)" "x \<in> set xs"
  shows "first (filter (\<lambda>y. f y = f x) xs) = Some x"
  using assms
proof (induction xs)
  case Nil
  then show ?case by simp
next
  case (Cons y ys)
  then show ?case by (auto simp: first_def)
qed

lemma first_filter_append:
  "first (filter P xs) = Some x \<Longrightarrow> first (filter P (xs @ ys)) = Some x"
  by (cases "filter P xs") (simp_all add: first_def)

section \<open>Registration\<close>


lemma register_new:
  assumes "u \<noteq> []" "p \<noteq> []" "\<not> has_nul u" "\<not> (\<exists>a\<in>set (users db). u_username a = u)"
  shows "register B salt \<lparr>username = Some u, password = Some p\<rparr> db
            = (case hashpw B p salt of
                 None \<Rightarrow> (Inl ValueError, db)
               | Some h \<Rightarrow>
                   (case add_user u h db of
                      (Inl e, db') \<Rightarrow> (Inl e, db')
                    | (Inr x, db') \<Rightarrow> (Inr (Success True), db')))"
proof -
  have "first (filter (\<lambda>a. u_username a = u) (users db)) = None"
    using assms(4) by (simp add: first_filter_None first_def)
  then show ?thesis
    using assms(1,2,3)
    by (simp add: register_def truthy_def subscript_def hash_password_def split: option.splits)
qed

lemma register_fresh:
  assumes "u \<noteq> []" "p \<noteq> []" "\<not> has_nul u" "\<not> (\<exists>a\<in>set (users db). u_username a = u)"
    and "hashpw B p salt = Some h" "\<not> has_nul h" "in_integer (users_id_seq db)"
  shows "register B salt \<lparr>username = Some u, password = Some p\<rparr> db
            = (Inr (Success True),
               db\<lparr>users := users db @ [\<lparr>u_id = users_id_seq db, u_username = u,
                                       u_password = h\<rparr>],
                  users_id_seq := users_id_seq db + 1\<rparr>)"
  using assms(3,5,6,7) by (simp add: register_new[OF assms(1-4)] add_user_def)






section \<open>Login\<close>

lemma login_found:
  assumes "\<not> has_nul u" and "first (filter (\<lambda>a. u_username a = u) (users db)) = Some a"
  shows "login B \<lparr>username = Some u, password = Some p\<rparr> db =
           (case checkpw B p (u_password a) of
              None \<Rightarrow> Inl ValueError
            | Some ok \<Rightarrow>
                if ok then Inr (LoginResponse True (u_id a) (u_username a))
                else Inl (HTTPException 401 ''Invalid credentials''))"
  using assms
  by (simp add: login_def subscript_def verify_password_def split: option.splits)

lemma login_unknown:
  assumes "\<not> has_nul u" and "first (filter (\<lambda>a. u_username a = u) (users db)) = None"
  shows "login B \<lparr>username = Some u, password = pw\<rparr> db =
           Inl (HTTPException 401 ''Invalid credentials'')"
  using assms by (simp add: login_def subscript_def)

lemma register_users_append:
  "\<exists>ys. users (snd (register B salt data db)) = users db @ ys"
  by (auto simp: register_def subscript_def add_user_def split: option.splits sum.splits)

lemma toggle_like_users: "users (snd (toggle_like data db)) = users db"
  by (auto simp: toggle_like_def subscript_def delete_liked_song_def add_liked_song_def
           split: option.splits sum.splits prod.splits)

lemma step_users_append: "\<exists>ys. users (step B r db) = users db @ ys"
  by (cases r) (simp_all add: register_users_append toggle_like_users)

lemma run_users_append: "\<exists>ys. users (run B rs db) = users db @ ys"
proof (induction rs arbitrary: db)
  case Nil
  then show ?case by simp
next
  case (Cons r rs)
  obtain ys where a: "users (step B r db) = users db @ ys"
    using step_users_append by blast
  obtain zs where b: "users (run B rs (step B r db)) = users (step B r db) @ zs"
    using Cons.IH by blast
  show ?case using a b by simp
qed

lemma login_without_nul:
  assumes "distinct (map u_username (users db))" and "\<not> has_nul u"
  shows "(\<forall>a\<in>set (users db). u_username a = u \<longrightarrow>
            (checkpw B p (u_password a) = Some True \<longrightarrow>
               login B \<lparr>username = Some u, password = Some p\<rparr> db
                 = Inr (LoginResponse True (u_id a) u))
          \<and> (checkpw B p (u_password a) = Some False \<longrightarrow>
               login B \<lparr>username = Some u, password = Some p\<rparr> db
                 = Inl (HTTPException 401 ''Invalid credentials''))
          \<and> (checkpw B p (u_password a) = None \<longrightarrow>
               login B \<lparr>username = Some u, password = Some p\<rparr> db = Inl ValueError))
       \<and> (\<not> (\<exists>a\<in>set (users db). u_username a = u) \<longrightarrow>
            login B \<lparr>username = Some u, password = Some p\<rparr> db
              = Inl (HTTPException 401 ''Invalid credentials''))
       \<and> ((\<exists>r. login B \<lparr>username = Some u, password = Some p\<rparr> db = Inr r)
            \<longleftrightarrow> (\<exists>a\<in>set (users db). u_username a = u \<and> checkpw B p (u_password a) = Some True))
       \<and> status_code (HTTPException 401 ''Invalid credentials'') = 401
       \<and> status_code ValueError = 500
       \<and> (u \<noteq> [] \<and> p \<noteq> [] \<and> \<not> (\<exists>a\<in>set (users db). u_username a = u)
            \<and> hashpw B p salt = Some h \<and> \<not> has_nul h \<and> in_integer (users_id_seq db) \<longrightarrow>
            (\<forall>rs. (checkpw B p h = Some True \<longrightarrow>
                     login B \<lparr>username = Some u, password = Some p\<rparr>
                       (run B rs (snd (register B salt \<lparr>username = Some u, password = Some p\<rparr> db)))
                       = Inr (LoginResponse True (users_id_seq db) u))
                 \<and> (\<forall>p'. checkpw B p' h = Some False \<longrightarrow>
                     login B \<lparr>username = Some u, password = Some p'\<rparr>
                       (run B rs (snd (register B salt \<lparr>username = Some u, password = Some p\<rparr> db)))
                       = Inl (HTTPException 401 ''Invalid credentials''))))"
proof -
  let ?l = "login B \<lparr>username = Some u, password = Some p\<rparr> db"
  have found: "\<And>a. a \<in> set (users db) \<Longrightarrow> u_username a = u \<Longrightarrow>
      ?l = (case checkpw B p (u_password a) of
              None \<Rightarrow> Inl ValueError
            | Some ok \<Rightarrow>
                if ok then Inr (LoginResponse True (u_id a) u)
                else Inl (HTTPException 401 ''Invalid credentials''))"
  proof -
    fix a assume a: "a \<in> set (users db)" "u_username a = u"
    have "first (filter (\<lambda>y. u_username y = u_username a) (users db)) = Some a"
      using assms(1) a(1) by (rule first_filter_unique)
    then show "?l = (case checkpw B p (u_password a) of
              None \<Rightarrow> Inl ValueError
            | Some ok \<Rightarrow>
                if ok then Inr (LoginResponse True (u_id a) u)
                else Inl (HTTPException 401 ''Invalid credentials''))"
      using a(2) login_found[OF assms(2), of db a B p] by (auto split: option.splits)
  qed
  have unknown: "\<not> (\<exists>a\<in>set (users db). u_username a = u) \<Longrightarrow>
      ?l = Inl (HTTPException 401 ''Invalid credentials'')"
  proof -
    assume "\<not> (\<exists>a\<in>set (users db). u_username a = u)"
    then have "first (filter (\<lambda>a. u_username a = u) (users db)) = None"
      by (simp add: first_filter_None first_def)
    then show ?thesis using assms(2) by (rule login_unknown[rotated])
  qed
  have c1: "\<forall>a\<in>set (users db). u_username a = u \<longrightarrow>
            (checkpw B p (u_password a) = Some True \<longrightarrow> ?l = Inr (LoginResponse True (u_id a) u))
          \<and> (checkpw B p (u_password a) = Some False \<longrightarrow>
               ?l = Inl (HTTPException 401 ''Invalid credentials''))
          \<and> (checkpw B p (u_password a) = None \<longrightarrow> ?l = Inl ValueError)"
    using found by simp
  have c2: "\<not> (\<exists>a\<in>set (users db). u_username a = u) \<longrightarrow>
            ?l = Inl (HTTPException 401 ''Invalid credentials'')"
    using unknown by blast
  have c3: "(\<exists>r. ?l = Inr r)
            \<longleftrightarrow> (\<exists>a\<in>set (users db). u_username a = u \<and> checkpw B p (u_password a) = Some True)"
  proof
    assume "\<exists>r. ?l = Inr r"
    then obtain r where r: "?l = Inr r" by blast
    then obtain a where a: "a \<in> set (users db)" "u_username a = u"
      using unknown by force
    have "checkpw B p (u_password a) = Some True"
      using found[OF a] r by (cases "checkpw B p (u_password a)") (auto split: if_splits)
    then show "\<exists>a\<in>set (users db). u_username a = u \<and> checkpw B p (u_password a) = Some True"
      using a by blast
  next
    assume "\<exists>a\<in>set (users db). u_username a = u \<and> checkpw B p (u_password a) = Some True"
    then show "\<exists>r. ?l = Inr r" using found by force
  qed
  have c4: "u \<noteq> [] \<and> p \<noteq> [] \<and> \<not> (\<exists>a\<in>set (users db). u_username a = u)
            \<and> hashpw B p salt = Some h \<and> \<not> has_nul h \<and> in_integer (users_id_seq db) \<longrightarrow>
            (\<forall>rs. (checkpw B p h = Some True \<longrightarrow>
                     login B \<lparr>username = Some u, password = Some p\<rparr>
                       (run B rs (snd (register B salt \<lparr>username = Some u, password = Some p\<rparr> db)))
                       = Inr (LoginResponse True (users_id_seq db) u))
                 \<and> (\<forall>p'. checkpw B p' h = Some False \<longrightarrow>
                     login B \<lparr>username = Some u, password = Some p'\<rparr>
                       (run B rs (snd (register B salt \<lparr>username = Some u, password = Some p\<rparr> db)))
                       = Inl (HTTPException 401 ''Invalid credentials'')))"
  proof (intro impI allI)
    fix rs
    assume h: "u \<noteq> [] \<and> p \<noteq> [] \<and> \<not> (\<exists>a\<in>set (users db). u_username a = u)
            \<and> hashpw B p salt = Some h \<and> \<not> has_nul h \<and> in_integer (users_id_seq db)"
    let ?db' = "snd (register B salt \<lparr>username = Some u, password = Some p\<rparr> db)"
    let ?new = "\<lparr>u_id = users_id_seq db, u_username = u, u_password = h\<rparr>"
    have "register B salt \<lparr>username = Some u, password = Some p\<rparr> db
            = (Inr (Success True),
               db\<lparr>users := users db @ [?new], users_id_seq := users_id_seq db + 1\<rparr>)"
      using register_fresh[of u p db B salt h] h assms(2) by blast
    then have "users ?db' = users db @ [?new]" by simp
    moreover have "filter (\<lambda>a. u_username a = u) (users db) = []"
      using h by (simp add: filter_empty_conv)
    ultimately have f1: "first (filter (\<lambda>a. u_username a = u) (users ?db')) = Some ?new"
      by (simp add: first_def)
    obtain ys where "users (run B rs ?db') = users ?db' @ ys"
      using run_users_append by blast
    then have f2: "first (filter (\<lambda>a. u_username a = u) (users (run B rs ?db'))) = Some ?new"
      using f1 by (simp only: first_filter_append)
    show "(checkpw B p h = Some True \<longrightarrow>
                     login B \<lparr>username = Some u, password = Some p\<rparr> (run B rs ?db')
                       = Inr (LoginResponse True (users_id_seq db) u))
                 \<and> (\<forall>p'. checkpw B p' h = Some False \<longrightarrow>
                     login B \<lparr>username = Some u, password = Some p'\<rparr> (run B rs ?db')
                       = Inl (HTTPException 401 ''Invalid credentials''))"
      by (simp add: login_found[OF assms(2) f2])
  qed
  have c5: "status_code (HTTPException 401 ''Invalid credentials'') = 401"
    "status_code ValueError = 500" by simp_all
  show ?thesis using c1 c2 c3 c4 c5 by blast
qed

text \<open>
  Claim C3 (as amended). In a database whose usernames are unique (the column is
  declared unique), \<open>login\<close> with a username without NUL and a password succeeds exactly
  when a user with that username exists and the library verifies the password against
  its stored hash; it then returns the id and the username of that user. Where no user
  has the username, and where the library reports that the password does not verify,
  it fails with 401 "Invalid credentials", the same for both causes; where the library
  raises while verifying, the request fails with a \<open>ValueError\<close> (status 500). After
  \<open>register\<close> of a new username succeeded, and after any further requests, \<open>login\<close>
  with the registered password succeeds with the id the registration assigned where
  the library verifies the password against its hash, and fails with 401 for a password
  the library reports as not verifying. A username holding NUL makes the lookup raise:
  the request fails with status 500.
\<close>

theorem login_invalid_credentials:
  assumes "distinct (map u_username (users db))"
  shows "(has_nul u \<longrightarrow>
            login B \<lparr>username = Some u, password = Some p\<rparr> db = Inl ValueError)
       \<and> (\<not> has_nul u \<longrightarrow>
          (\<forall>a\<in>set (users db). u_username a = u \<longrightarrow>
               (checkpw B p (u_password a) = Some True \<longrightarrow>
                  login B \<lparr>username = Some u, password = Some p\<rparr> db
                    = Inr (LoginResponse True (u_id a) u))
             \<and> (checkpw B p (u_password a) = Some False \<longrightarrow>
                  login B \<lparr>username = Some u, password = Some p\<rparr> db
                    = Inl (HTTPException 401 ''Invalid credentials''))
             \<and> (checkpw B p (u_password a) = None \<longrightarrow>
                  login B \<lparr>username = Some u, password = Some p\<rparr> db = Inl ValueError))
          \<and> (\<not> (\<exists>a\<in>set (users db). u_username a = u) \<longrightarrow>
               login B \<lparr>username = Some u, password = Some p\<rparr> db
                 = Inl (HTTPException 401 ''Invalid credentials''))
          \<and> ((\<exists>r. login B \<lparr>username = Some u, password = Some p\<rparr> db = Inr r)
               \<longleftrightarrow> (\<exists>a\<in>set (users db). u_username a = u \<and> checkpw B p (u_password a) = Some True))
          \<and> status_code (HTTPException 401 ''Invalid credentials'') = 401
          \<and> status_code ValueError = 500
          \<and> (u \<noteq> [] \<and> p \<noteq> [] \<and> \<not> (\<exists>a\<in>set (users db). u_username a = u)
               \<and> hashpw B p salt = Some h \<and> \<not> has_nul h \<and> in_integer (users_id_seq db) \<longrightarrow>
               (\<forall>rs. (checkpw B p h = Some True \<longrightarrow>
                        login B \<lparr>username = Some u, password = Some p\<rparr>
                          (run B rs (snd (register B salt \<lparr>username = Some u, password = Some p\<rparr> db)))
                          = Inr (LoginResponse True (users_id_seq db) u))
                    \<and> (\<forall>p'. checkpw B p' h = Some False \<longrightarrow>
                        login B \<lparr>username = Some u, password = Some p'\<rparr>
                          (run B rs (snd (register B salt \<lparr>username = Some u, password = Some p\<rparr> db)))
                          = Inl (HTTPException 401 ''Invalid credentials'')))))"
proof (intro conjI impI)
  assume "has_nul u"
  then show "login B \<lparr>username = Some u, password = Some p\<rparr> db = Inl ValueError"
    by (simp add: login_def subscript_def)
qed (use login_without_nul[OF assms] in blast)+

theorem login_invalid_credentials_witness:
  "login toy_bcrypt \<lparr>username = Some ''alice'', password = Some ''correct-pw''\<rparr>
     (snd (register toy_bcrypt ''s1''
             \<lparr>username = Some ''alice'', password = Some ''correct-pw''\<rparr> (empty_database True)))
     = Inr (LoginResponse True 1 ''alice'')
   \<and> login toy_bcrypt \<lparr>username = Some ''alice'', password = Some ''wrong-pw''\<rparr>
     (snd (register toy_bcrypt ''s1''
             \<lparr>username = Some ''alice'', password = Some ''correct-pw''\<rparr> (empty_database True)))
     = Inl (HTTPException 401 ''Invalid credentials'')
   \<and> login toy_bcrypt \<lparr>username = Some ''carol'', password = Some ''correct-pw''\<rparr>
     (snd (register toy_bcrypt ''s1''
             \<lparr>username = Some ''alice'', password = Some ''correct-pw''\<rparr> (empty_database True)))
     = Inl (HTTPException 401 ''Invalid credentials'')"
proof -
  let ?db = "snd (register toy_bcrypt ''s1''
             \<lparr>username = Some ''alice'', password = Some ''correct-pw''\<rparr> (empty_database True))"
  have users: "users ?db = [\<lparr>u_id = 1, u_username = ''alice'', u_password = ''s1$wp-tcerroc''\<rparr>]"
    by (simp add: register_def truthy_def subscript_def first_def hash_password_def add_user_def
          has_nul_def in_integer_def empty_database_def toy_bcrypt_def)
  have d: "distinct (map u_username (users ?db))"
    by (simp add: users)
  have n: "\<not> has_nul ''alice''" "\<not> has_nul ''carol''" by (simp_all add: has_nul_def)
  have c1: "checkpw toy_bcrypt ''correct-pw'' ''s1$wp-tcerroc'' = Some True"
    by (simp add: toy_bcrypt_def)
  have c2: "checkpw toy_bcrypt ''wrong-pw'' ''s1$wp-tcerroc'' = Some False"
    by (simp add: toy_bcrypt_def)
  show ?thesis
    using login_invalid_credentials [OF d, of "''alice''" toy_bcrypt "''correct-pw''"]
      login_invalid_credentials [OF d, of "''alice''" toy_bcrypt "''wrong-pw''"]
      login_invalid_credentials [OF d, of "''carol''" toy_bcrypt "''correct-pw''"]
    by (simp add: users n c1 c2)
qed

theorem login_invalid_credentials_counterexample:
  "login toy_bcrypt \<lparr>username = Some [CHR ''a'', CHR 0x00], password = Some ''pw123''\<rparr>
     (empty_database True) = Inl ValueError
   \<and> status_code ValueError = 500
   \<and> users (empty_database True) = []"
  by (simp add: login_def subscript_def has_nul_def empty_database_def)

section \<open>Toggling a like\<close>

lemma toggle_like_existing:
  assumes "user_id d = Some uid" "song_id d = Some sid" "\<not> has_nul sid"
    and "pair_rows uid sid db = ex # rest"
  shows "toggle_like d db = (Inr (Status ''unliked''), delete_liked_song ex db)"
  using assms by (simp add: toggle_like_def subscript_def pair_rows_def first_def)

lemma toggle_like_nul:
  assumes "user_id d = Some uid" "song_id d = Some sid" "has_nul sid"
  shows "toggle_like d db = (Inl ValueError, db)"
  using assms by (simp add: toggle_like_def subscript_def)





lemma toggle_like_liked:
  assumes "fst (toggle_like (like_request uid sid t a th) db) = Inr (Status ''liked'')"
  shows "liked_songs (snd (toggle_like (like_request uid sid t a th) db)) =
           liked_songs db @
             [\<lparr>l_id = liked_songs_id_seq db, l_user_id = uid, l_song_id = sid,
               l_title = t, l_artist = a, l_thumbnail = th\<rparr>]
       \<and> pair_rows uid sid db = []"
  using assms
  by (auto simp: toggle_like_def subscript_def like_request_def add_liked_song_def
        pair_rows_def first_def split: if_splits list.splits)



lemma pair_rows_hd:
  "pair_rows uid sid db = ex # rest \<Longrightarrow>
     ex \<in> set (liked_songs db) \<and> l_user_id ex = uid \<and> l_song_id ex = sid"
proof -
  assume a: "pair_rows uid sid db = ex # rest"
  have "ex \<in> set (pair_rows uid sid db)" using a by simp
  then show ?thesis unfolding pair_rows_def set_filter by blast
qed

lemma filter_remove1_distinct:
  assumes "distinct (map f xs)" "x \<in> set xs"
  shows "filter (\<lambda>y. f y \<noteq> f x) xs = remove1 x xs"
  using assms
proof (induction xs)
  case Nil
  then show ?case by simp
next
  case (Cons y ys)
  show ?case
  proof (cases "y = x")
    case True
    then have "f x \<notin> f ` set ys" using Cons.prems(1) by simp
    then have "\<forall>z\<in>set ys. f z \<noteq> f x" by (metis imageI)
    then have "filter (\<lambda>y. f y \<noteq> f x) ys = ys" by (simp add: filter_id_conv)
    then show ?thesis using True by simp
  next
    case False
    then have "x \<in> set ys" using Cons.prems(2) by simp
    moreover have "f y \<noteq> f x" using Cons.prems(1) \<open>x \<in> set ys\<close> by auto
    ultimately show ?thesis using Cons False by simp
  qed
qed

lemma filter_remove1_head:
  "filter P xs = x # r \<Longrightarrow> filter P (remove1 x xs) = r"
proof (induction xs)
  case Nil
  then show ?case by simp
next
  case (Cons y ys)
  have "x \<in> set (filter P (y # ys))" using Cons.prems by simp
  then have px: "P x" unfolding set_filter by blast
  show ?case
  proof (cases "P y")
    case True
    then show ?thesis using Cons.prems by auto
  next
    case False
    then have "y \<noteq> x" using px by blast
    then show ?thesis using False Cons by simp
  qed
qed

lemma filter_remove1_other:
  "\<not> Q x \<Longrightarrow> filter Q (remove1 x xs) = filter Q xs"
  by (induction xs) auto










text \<open>
  Claim C10. In a database whose row ids are unique (the primary key) and whose stored
  track ids hold no NUL (the column is text), when \<open>k \<ge> 1\<close> rows match the pair of the
  request, one call of \<open>toggle_like\<close> answers "unliked" and deletes exactly one matching
  row: the table is the old one with that row removed once, the pair keeps its other
  \<open>k - 1\<close> rows, and the rows of every other pair and the users are as before. The
  title, artist and thumbnail of the request are not read.
\<close>

theorem toggle_like_deletes_one_row:
  assumes "distinct (map l_id (liked_songs db))"
    and "\<forall>l\<in>set (liked_songs db). \<not> has_nul (l_song_id l)"
    and "user_id d = Some uid" and "song_id d = Some sid"
    and "pair_rows uid sid db \<noteq> []"
  shows "fst (toggle_like d db) = Inr (Status ''unliked'')
       \<and> (\<exists>ex\<in>set (pair_rows uid sid db).
             liked_songs (snd (toggle_like d db)) = remove1 ex (liked_songs db))
       \<and> length (liked_songs (snd (toggle_like d db))) + 1 = length (liked_songs db)
       \<and> pair_rows uid sid (snd (toggle_like d db)) = tl (pair_rows uid sid db)
       \<and> length (pair_rows uid sid (snd (toggle_like d db))) = length (pair_rows uid sid db) - 1
       \<and> filter (\<lambda>l. \<not> (l_user_id l = uid \<and> l_song_id l = sid))
            (liked_songs (snd (toggle_like d db)))
           = filter (\<lambda>l. \<not> (l_user_id l = uid \<and> l_song_id l = sid)) (liked_songs db)
       \<and> users (snd (toggle_like d db)) = users db"
proof -
  obtain ex rest where p: "pair_rows uid sid db = ex # rest"
    using assms(5) by (cases "pair_rows uid sid db") auto
  have ex: "ex \<in> set (liked_songs db)" "l_user_id ex = uid" "l_song_id ex = sid"
    using pair_rows_hd[OF p] by simp_all
  have nn: "\<not> has_nul sid" using assms(2) ex(1,3) by blast
  note e = toggle_like_existing[OF assms(3,4) nn p]
  have rows: "liked_songs (snd (toggle_like d db)) = remove1 ex (liked_songs db)"
    using filter_remove1_distinct[OF assms(1) ex(1)] by (simp add: e delete_liked_song_def)
  have a: "fst (toggle_like d db) = Inr (Status ''unliked'')" by (simp add: e)
  have b: "\<exists>ex\<in>set (pair_rows uid sid db).
             liked_songs (snd (toggle_like d db)) = remove1 ex (liked_songs db)"
    using rows p by auto
  have c: "length (liked_songs (snd (toggle_like d db))) + 1 = length (liked_songs db)"
    using ex(1) by (simp add: rows length_remove1) (cases "liked_songs db", auto)
  have d: "pair_rows uid sid (snd (toggle_like d db)) = tl (pair_rows uid sid db)"
    using p filter_remove1_head[of "\<lambda>l. l_user_id l = uid \<and> l_song_id l = sid" "liked_songs db" ex rest]
    by (simp add: pair_rows_def rows)
  have f: "filter (\<lambda>l. \<not> (l_user_id l = uid \<and> l_song_id l = sid))
            (liked_songs (snd (toggle_like d db)))
           = filter (\<lambda>l. \<not> (l_user_id l = uid \<and> l_song_id l = sid)) (liked_songs db)"
    unfolding rows using ex(2,3) by (intro filter_remove1_other) simp
  have g: "users (snd (toggle_like d db)) = users db"
    by (simp add: e delete_liked_song_def)
  show ?thesis using a b c d f g by simp
qed

theorem toggle_like_deletes_one_row_witness:
  "fst (toggle_like \<lparr>user_id = Some 1, song_id = Some ''t'', title = None, artist = None,
                     thumbnail = None\<rparr> db_duplicates) = Inr (Status ''unliked'')
   \<and> pair_rows 1 ''t'' (snd (toggle_like \<lparr>user_id = Some 1, song_id = Some ''t'', title = None,
                     artist = None, thumbnail = None\<rparr> db_duplicates))
      = [\<lparr>l_id = 3, l_user_id = 1, l_song_id = ''t'', l_title = ''a'', l_artist = ''b'', l_thumbnail = ''c''\<rparr>]
   \<and> length (liked_songs (snd (toggle_like \<lparr>user_id = Some 1, song_id = Some ''t'', title = None,
                     artist = None, thumbnail = None\<rparr> db_duplicates))) = 2"
proof -
  let ?d = "\<lparr>user_id = Some 1, song_id = Some ''t'', title = None, artist = None,
                     thumbnail = None\<rparr>"
  have a: "distinct (map l_id (liked_songs db_duplicates))"
    by (simp add: db_duplicates_def)
  have n: "\<forall>l\<in>set (liked_songs db_duplicates). \<not> has_nul (l_song_id l)"
    by (simp add: db_duplicates_def has_nul_def)
  have b: "user_id ?d = Some 1" "song_id ?d = Some ''t''" by simp_all
  have p: "pair_rows 1 ''t'' db_duplicates =
      [\<lparr>l_id = 1, l_user_id = 1, l_song_id = ''t'', l_title = ''a'', l_artist = ''b'', l_thumbnail = ''c''\<rparr>,
       \<lparr>l_id = 3, l_user_id = 1, l_song_id = ''t'', l_title = ''a'', l_artist = ''b'', l_thumbnail = ''c''\<rparr>]"
    by (simp add: pair_rows_def db_duplicates_def)
  have c: "pair_rows 1 ''t'' db_duplicates \<noteq> []" by (simp add: p)
  have l: "length (liked_songs db_duplicates) = 3" by (simp add: db_duplicates_def)
  show ?thesis
    using toggle_like_deletes_one_row [OF a n b c] by (simp add: p l)
qed

lemma distinct_keys_at_most_one:
  "distinct (map f xs) \<Longrightarrow> length (filter (\<lambda>x. f x = k) xs) \<le> 1"
proof (induction xs)
  case Nil
  then show ?case by simp
next
  case (Cons x xs)
  show ?case
  proof (cases "f x = k")
    case True
    then have "k \<notin> f ` set xs" using Cons.prems by auto
    then have "filter (\<lambda>x. f x = k) xs = []" by (auto simp: filter_empty_conv)
    then show ?thesis using True by simp
  next
    case False
    then show ?thesis using Cons by simp
  qed
qed

lemma toggle_like_keys:
  assumes "distinct (map pair_key (liked_songs db))"
  shows "distinct (map pair_key (liked_songs (snd (toggle_like d db))))"
proof (cases "user_id d")
  case None
  then show ?thesis using assms by (simp add: toggle_like_def subscript_def)
next
  case (Some uid)
  note uid = this
  show ?thesis
  proof (cases "song_id d")
    case None
    then show ?thesis using assms uid by (simp add: toggle_like_def subscript_def)
  next
    case (Some sid)
    show ?thesis
    proof (cases "has_nul sid")
      case True
      then show ?thesis using assms by (simp add: toggle_like_nul[OF uid Some])
    next
      case False
      show ?thesis
      proof (cases "pair_rows uid sid db")
        case (Cons ex rest)
        show ?thesis
          unfolding toggle_like_existing[OF uid Some False Cons]
          using assms by (simp add: delete_liked_song_def distinct_map_filter)
      next
        case Nil
        then have new: "(uid, sid) \<notin> pair_key ` set (liked_songs db)"
          by (auto simp: pair_rows_def filter_empty_conv pair_key_def)
        have f: "first (filter (\<lambda>l. l_user_id l = uid \<and> l_song_id l = sid) (liked_songs db)) = None"
          using Nil by (simp add: pair_rows_def first_def)
        show ?thesis
          using assms new uid Some f False
          by (auto simp: toggle_like_def subscript_def add_liked_song_def pair_key_def
                split: option.splits)
      qed
    qed
  qed
qed

lemma register_liked_songs: "liked_songs (snd (register B salt data db)) = liked_songs db"
  by (auto simp: register_def subscript_def add_user_def split: option.splits sum.splits)

lemma step_keys:
  "distinct (map pair_key (liked_songs db)) \<Longrightarrow>
   distinct (map pair_key (liked_songs (step B r db)))"
  by (cases r) (simp_all add: register_liked_songs toggle_like_keys)

lemma run_keys:
  "distinct (map pair_key (liked_songs db)) \<Longrightarrow>
   distinct (map pair_key (liked_songs (run B rs db)))"
  by (induction rs arbitrary: db) (simp_all add: step_keys)

text \<open>
  Claim C5. Starting from an empty database, after any sequence of register, login,
  toggle-like and get-liked requests run one after another, every (account, track) pair
  has at most one row in \<open>liked_songs\<close>.
\<close>

theorem at_most_one_row_per_pair:
  "length (pair_rows uid sid (run B rs (empty_database fk))) \<le> 1"
proof -
  have "distinct (map pair_key (liked_songs (empty_database fk)))"
    by (simp add: empty_database_def)
  then have "distinct (map pair_key (liked_songs (run B rs (empty_database fk))))"
    by (rule run_keys)
  then have "length (filter (\<lambda>l. pair_key l = (uid, sid))
               (liked_songs (run B rs (empty_database fk)))) \<le> 1"
    by (rule distinct_keys_at_most_one)
  then show ?thesis by (simp add: pair_rows_def pair_key_def)
qed

theorem at_most_one_row_per_pair_witness:
  "length (pair_rows 1 ''t''
     (run toy_bcrypt
        [Register ''s'' \<lparr>username = Some ''bob'', password = Some ''pw123''\<rparr>,
         Login \<lparr>username = Some ''bob'', password = Some ''pw123''\<rparr>,
         ToggleLike (like_request 1 ''t'' ''a'' ''b'' ''c''),
         GetLiked 1,
         ToggleLike (like_request 1 ''t'' ''a'' ''b'' ''c''),
         ToggleLike (like_request 1 ''t'' ''a'' ''b'' ''c'')]
        (empty_database True))) \<le> 1"
  using at_most_one_row_per_pair
    [of 1 "''t''" toy_bcrypt
        "[Register ''s'' \<lparr>username = Some ''bob'', password = Some ''pw123''\<rparr>,
         Login \<lparr>username = Some ''bob'', password = Some ''pw123''\<rparr>,
         ToggleLike (like_request 1 ''t'' ''a'' ''b'' ''c''),
         GetLiked 1,
         ToggleLike (like_request 1 ''t'' ''a'' ''b'' ''c''),
         ToggleLike (like_request 1 ''t'' ''a'' ''b'' ''c'')]" True]
  by simp

section \<open>Listing likes\<close>

lemma get_liked_set:
  "set (get_liked uid db) = entry_of ` {l \<in> set (liked_songs db). l_user_id l = uid}"
  by (auto simp: get_liked_def entry_of_def)

lemma get_liked_append:
  "liked_songs db' = liked_songs db @ [l] \<Longrightarrow> l_user_id l = uid \<Longrightarrow>
     set (get_liked uid db') = set (get_liked uid db) \<union> {entry_of l}"
  by (auto simp: get_liked_def entry_of_def)

text \<open>
  Claim C6. As a set, \<open>get_liked uid\<close> is exactly the entries (track id, title, artist,
  thumbnail) of the rows whose \<open>user_id\<close> is \<open>uid\<close>; every entry it returns comes from
  a row of that account, so a track liked only by another account is not in it. After
  two calls of \<open>toggle_like\<close> for the account that were each answered "liked", it
  returns what it returned before and the two entries: exactly the two for an account
  that had no likes.
\<close>

theorem get_liked_exactly_own_rows:
  "set (get_liked uid db) = entry_of ` {l \<in> set (liked_songs db). l_user_id l = uid}
   \<and> (\<forall>e\<in>set (get_liked uid db).
         \<exists>l\<in>set (liked_songs db). l_user_id l = uid \<and> l_song_id l = e_id e)
   \<and> (fst (toggle_like (like_request uid s1 t1 a1 th1) db) = Inr (Status ''liked'')
        \<and> fst (toggle_like (like_request uid s2 t2 a2 th2)
                 (snd (toggle_like (like_request uid s1 t1 a1 th1) db))) = Inr (Status ''liked'')
        \<longrightarrow>
        set (get_liked uid
               (snd (toggle_like (like_request uid s2 t2 a2 th2)
                  (snd (toggle_like (like_request uid s1 t1 a1 th1) db)))))
          = set (get_liked uid db)
            \<union> {\<lparr>e_id = s1, e_title = t1, e_artist = a1, e_thumbnail = th1\<rparr>,
               \<lparr>e_id = s2, e_title = t2, e_artist = a2, e_thumbnail = th2\<rparr>}
      \<and> (filter (\<lambda>l. l_user_id l = uid) (liked_songs db) = [] \<longrightarrow>
          set (get_liked uid
               (snd (toggle_like (like_request uid s2 t2 a2 th2)
                  (snd (toggle_like (like_request uid s1 t1 a1 th1) db)))))
          = {\<lparr>e_id = s1, e_title = t1, e_artist = a1, e_thumbnail = th1\<rparr>,
             \<lparr>e_id = s2, e_title = t2, e_artist = a2, e_thumbnail = th2\<rparr>}))"
proof (intro conjI impI)
  show "set (get_liked uid db) = entry_of ` {l \<in> set (liked_songs db). l_user_id l = uid}"
    by (rule get_liked_set)
  show "\<forall>e\<in>set (get_liked uid db).
         \<exists>l\<in>set (liked_songs db). l_user_id l = uid \<and> l_song_id l = e_id e"
    by (auto simp: get_liked_def)
next
  let ?db1 = "snd (toggle_like (like_request uid s1 t1 a1 th1) db)"
  let ?db2 = "snd (toggle_like (like_request uid s2 t2 a2 th2) ?db1)"
  let ?e1 = "\<lparr>e_id = s1, e_title = t1, e_artist = a1, e_thumbnail = th1\<rparr>"
  let ?e2 = "\<lparr>e_id = s2, e_title = t2, e_artist = a2, e_thumbnail = th2\<rparr>"
  assume h: "fst (toggle_like (like_request uid s1 t1 a1 th1) db) = Inr (Status ''liked'')
        \<and> fst (toggle_like (like_request uid s2 t2 a2 th2) ?db1) = Inr (Status ''liked'')"
  have r1: "liked_songs ?db1 = liked_songs db @
             [\<lparr>l_id = liked_songs_id_seq db, l_user_id = uid, l_song_id = s1,
               l_title = t1, l_artist = a1, l_thumbnail = th1\<rparr>]"
    using toggle_like_liked[of uid s1 t1 a1 th1 db] h by blast
  have r2: "liked_songs ?db2 = liked_songs ?db1 @
             [\<lparr>l_id = liked_songs_id_seq ?db1, l_user_id = uid, l_song_id = s2,
               l_title = t2, l_artist = a2, l_thumbnail = th2\<rparr>]"
    using toggle_like_liked[of uid s2 t2 a2 th2 ?db1] h by blast
  have g1: "set (get_liked uid ?db1) = set (get_liked uid db) \<union> {?e1}"
    using get_liked_append[OF r1] by (simp add: entry_of_def)
  have g2: "set (get_liked uid ?db2) = set (get_liked uid ?db1) \<union> {?e2}"
    using get_liked_append[OF r2] by (simp add: entry_of_def)
  show u: "set (get_liked uid ?db2) = set (get_liked uid db) \<union> {?e1, ?e2}"
    using g1 g2 by auto
  assume "filter (\<lambda>l. l_user_id l = uid) (liked_songs db) = []"
  then have "get_liked uid db = []" by (simp add: get_liked_def)
  then show "set (get_liked uid ?db2) = {?e1, ?e2}" using u by simp
qed

theorem get_liked_exactly_own_rows_witness:
  "set (get_liked 1
          (snd (toggle_like (like_request 1 ''T2'' ''b'' ''y'' ''v'')
             (snd (toggle_like (like_request 1 ''T1'' ''a'' ''x'' ''u'') db_two_users)))))
     = {\<lparr>e_id = ''T1'', e_title = ''a'', e_artist = ''x'', e_thumbnail = ''u''\<rparr>,
        \<lparr>e_id = ''T2'', e_title = ''b'', e_artist = ''y'', e_thumbnail = ''v''\<rparr>}
   \<and> get_liked 2 db_two_users
     = [\<lparr>e_id = ''T3'', e_title = ''c'', e_artist = ''z'', e_thumbnail = ''w''\<rparr>]"
proof -
  let ?db1 = "snd (toggle_like (like_request 1 ''T1'' ''a'' ''x'' ''u'') db_two_users)"
  have a: "filter (\<lambda>l. l_user_id l = 1) (liked_songs db_two_users) = []"
    by (simp add: db_two_users_def)
  have l1: "toggle_like (like_request 1 ''T1'' ''a'' ''x'' ''u'') db_two_users =
      (Inr (Status ''liked''),
       db_two_users\<lparr>liked_songs := liked_songs db_two_users @
          [\<lparr>l_id = 2, l_user_id = 1, l_song_id = ''T1'', l_title = ''a'', l_artist = ''x'',
            l_thumbnail = ''u''\<rparr>], liked_songs_id_seq := 3\<rparr>)"
    by (simp add: toggle_like_def subscript_def first_def like_request_def add_liked_song_def
          has_nul_def in_integer_def db_two_users_def)
  have l2: "fst (toggle_like (like_request 1 ''T2'' ''b'' ''y'' ''v'') ?db1) = Inr (Status ''liked'')"
    unfolding l1
    by (simp add: toggle_like_def subscript_def first_def like_request_def add_liked_song_def
          has_nul_def in_integer_def db_two_users_def)
  have l1': "fst (toggle_like (like_request 1 ''T1'' ''a'' ''x'' ''u'') db_two_users)
               = Inr (Status ''liked'')" by (simp add: l1)
  have c: "get_liked 2 db_two_users
     = [\<lparr>e_id = ''T3'', e_title = ''c'', e_artist = ''z'', e_thumbnail = ''w''\<rparr>]"
    by (simp add: get_liked_def db_two_users_def)
  have t: "set (get_liked 1
          (snd (toggle_like (like_request 1 ''T2'' ''b'' ''y'' ''v'') ?db1)))
     = {\<lparr>e_id = ''T1'', e_title = ''a'', e_artist = ''x'', e_thumbnail = ''u''\<rparr>,
        \<lparr>e_id = ''T2'', e_title = ''b'', e_artist = ''y'', e_thumbnail = ''v''\<rparr>}"
    using get_liked_exactly_own_rows
      [of 1 db_two_users "''T1''" "''a''" "''x''" "''u''" "''T2''" "''b''" "''y''" "''v''"]
      a l1' l2
    by blast
  show ?thesis using t c by blast
qed

section \<open>Missing fields\<close>

text \<open>
  Claim C7 (where the code departs from it). \<open>login\<close> with a body that lacks
  \<open>username\<close>, and \<open>toggle_like\<close> with a body that lacks \<open>user_id\<close>, raise a
  \<open>KeyError\<close> that nothing catches: the answer is status 500, not a 400 with a
  message as \<open>register\<close> gives.
\<close>

theorem missing_field_not_validated:
  "login B \<lparr>username = None, password = pw\<rparr> db = Inl (KeyError (SKey ''username''))
   \<and> status_code (KeyError (SKey ''username'')) = 500
   \<and> toggle_like \<lparr>user_id = None, song_id = sid, title = t, artist = a, thumbnail = th\<rparr> db
       = (Inl (KeyError (SKey ''user_id'')), db)
   \<and> status_code (KeyError (SKey ''user_id'')) = 500"
  by (simp add: login_def toggle_like_def subscript_def)

theorem missing_field_not_validated_witness:
  "login toy_bcrypt \<lparr>username = None, password = Some ''pw''\<rparr> (empty_database True)
     = Inl (KeyError (SKey ''username''))
   \<and> fst (toggle_like \<lparr>user_id = None, song_id = Some ''t'', title = Some ''a'',
                        artist = Some ''b'', thumbnail = Some ''c''\<rparr> (empty_database True))
     = Inl (KeyError (SKey ''user_id''))"
  using missing_field_not_validated
    [of toy_bcrypt "Some ''pw''" "empty_database True" "Some ''t''" "Some ''a''" "Some ''b''" "Some ''c''"]
  by simp

section \<open>Catalog\<close>

lemma and_then_Inr:
  "and_then r f = Inr y \<longleftrightarrow> (\<exists>v. r = Inr v \<and> f v = Inr y)"
  by (cases r) (simp_all add: and_then_def)

lemma comprehension_Inr:
  "comprehension f xs = Inr ys \<longleftrightarrow> map f xs = map Inr ys"
proof (induction xs arbitrary: ys)
  case Nil
  then show ?case by auto
next
  case (Cons x xs)
  show ?case
  proof (cases ys)
    case Nil
    then show ?thesis by (auto simp: and_then_Inr)
  next
    case (Cons y ys')
    then show ?thesis using Cons.IH[of ys'] by (auto simp: and_then_Inr)
  qed
qed

lemma comprehension_total:
  "(\<forall>x\<in>set xs. \<exists>y. f x = Inr y) \<Longrightarrow> \<exists>ys. comprehension f xs = Inr ys"
proof (induction xs)
  case Nil
  then show ?case by simp
next
  case (Cons x xs)
  then obtain y ys where "f x = Inr y" "comprehension f xs = Inr ys" by auto
  then show ?case by (simp add: and_then_def)
qed

lemma comprehension_nth:
  assumes "comprehension f xs = Inr ys"
  shows "length ys = length xs \<and> (\<forall>i<length ys. f (xs ! i) = Inr (ys ! i))"
proof -
  have m: "map f xs = map Inr ys" using assms by (simp add: comprehension_Inr)
  then have l: "length xs = length ys" by (metis length_map)
  have "\<forall>i<length ys. f (xs ! i) = Inr (ys ! i)"
  proof (intro allI impI)
    fix i assume i: "i < length ys"
    then have "map f xs ! i = map Inr ys ! i" using m by simp
    then show "f (xs ! i) = Inr (ys ! i)" using i l by simp
  qed
  then show ?thesis using l by simp
qed

lemma getitem_SKey:
  "getitem v (SKey k) = Inr x \<longleftrightarrow> (\<exists>kvs. v = JDict kvs \<and> map_of kvs k = Some x)"
  by (cases v) (auto split: option.splits)

lemma getitem_first:
  "getitem arts (IKey 0) = Inr (JDict akvs) \<longleftrightarrow> (\<exists>rest. arts = JList (JDict akvs # rest))"
proof (cases arts)
  case (JList xs)
  then show ?thesis
    by (cases xs) (auto simp: list_index_def Let_def split: if_splits)
next
  case (JStr cs)
  then show ?thesis by (auto split: sum.splits)
qed simp_all

lemma list_index_last:
  "list_index xs (- 1) = Inr x \<longleftrightarrow> xs \<noteq> [] \<and> x = last xs"
proof (cases xs)
  case Nil
  then show ?thesis by (simp add: list_index_def)
next
  case (Cons y ys)
  then have "nat (- 1 + int (length xs)) = length xs - 1" by simp
  then show ?thesis using Cons
    by (auto simp: list_index_def Let_def last_conv_nth simp del: last.simps)
qed

lemma getitem_last:
  "getitem ths (IKey (- 1)) = Inr (JDict tkvs) \<longleftrightarrow>
     (\<exists>xs. ths = JList xs \<and> xs \<noteq> [] \<and> last xs = JDict tkvs)"
proof (cases ths)
  case (JList xs)
  then show ?thesis by (auto simp: list_index_last)
next
  case (JStr cs)
  then show ?thesis by (auto split: sum.splits)
qed simp_all

lemma track_of_has_fields:
  "track_of s = Inr t \<longleftrightarrow> has_fields s (t_id t) (t_title t) (t_artist t) (t_thumbnail t)"
proof
  assume "track_of s = Inr t"
  then obtain vid ttl arts art nm ths th url where
    g: "getitem s (SKey ''videoId'') = Inr vid" "getitem s (SKey ''title'') = Inr ttl"
       "getitem s (SKey ''artists'') = Inr arts" "getitem arts (IKey 0) = Inr art"
       "getitem art (SKey ''name'') = Inr nm" "getitem s (SKey ''thumbnails'') = Inr ths"
       "getitem ths (IKey (- 1)) = Inr th" "getitem th (SKey ''url'') = Inr url"
    and t: "t = \<lparr>t_id = vid, t_title = ttl, t_artist = nm, t_thumbnail = url\<rparr>"
    unfolding track_of_def and_then_Inr by auto
  obtain kvs where s: "s = JDict kvs" using g(1) getitem_SKey by blast
  obtain akvs where a: "art = JDict akvs" "map_of akvs ''name'' = Some nm"
    using g(5) getitem_SKey by blast
  obtain tkvs where k: "th = JDict tkvs" "map_of tkvs ''url'' = Some url"
    using g(8) getitem_SKey by blast
  obtain rest where r: "arts = JList (JDict akvs # rest)"
    using g(4) a(1) getitem_first by blast
  obtain xs where x: "ths = JList xs" "xs \<noteq> []" "last xs = JDict tkvs"
    using g(7) k(1) getitem_last by blast
  show "has_fields s (t_id t) (t_title t) (t_artist t) (t_thumbnail t)"
    unfolding has_fields_def
    using g(1,2,3,6) s a(2) k(2) r x t by (auto split: option.splits)
next
  assume "has_fields s (t_id t) (t_title t) (t_artist t) (t_thumbnail t)"
  then obtain kvs akvs rest ths tkvs where
    h: "s = JDict kvs" "map_of kvs ''videoId'' = Some (t_id t)"
       "map_of kvs ''title'' = Some (t_title t)"
       "map_of kvs ''artists'' = Some (JList (JDict akvs # rest))"
       "map_of akvs ''name'' = Some (t_artist t)"
       "map_of kvs ''thumbnails'' = Some (JList ths)"
       "ths \<noteq> []" "last ths = JDict tkvs" "map_of tkvs ''url'' = Some (t_thumbnail t)"
    unfolding has_fields_def by blast
  have l: "list_index ths (- 1) = Inr (JDict tkvs)"
    using h(7,8) by (simp add: list_index_last)
  show "track_of s = Inr t"
    using h l by (simp add: track_of_def and_then_def list_index_def)
qed

lemma has_fields_unique:
  "has_fields s vid ttl nm url \<Longrightarrow> has_fields s vid' ttl' nm' url' \<Longrightarrow>
     vid' = vid \<and> ttl' = ttl \<and> nm' = nm \<and> url' = url"
  unfolding has_fields_def by auto

lemma track_of_JStr: "track_of (JStr cs) = Inl TypeError"
  by (simp add: track_of_def and_then_def)

lemma slice15_tracks:
  assumes "slice15 songs = Inr sl" and "comprehension track_of sl = Inr ts" and "ts \<noteq> []"
  shows "\<exists>xs. songs = JList xs \<and> sl = take 15 xs"
proof (cases songs)
  case (JList xs)
  then show ?thesis using assms(1) by simp
next
  case (JStr cs)
  then have sl: "sl = map (\<lambda>c. JStr [c]) (take 15 cs)" using assms(1) by simp
  have "length ts = length sl" using comprehension_nth[OF assms(2)] by simp
  then obtain c cs' where "take 15 cs = c # cs'" using assms(3) sl by (cases "take 15 cs") auto
  then have "comprehension track_of sl = Inl TypeError"
    using sl by (simp add: track_of_JStr and_then_def)
  then show ?thesis using assms(2) by simp
qed (use assms(1) in simp_all)

lemma trending_Some:
  "trending (Some c) =
     Inr (Tracks (case and_then (yt_get_charts c ''IN'') (\<lambda>charts.
                and_then (getitem charts (SKey ''songs'')) (\<lambda>sec.
                and_then (getitem sec (SKey ''items'')) (\<lambda>songs.
                and_then (slice15 songs) (comprehension track_of)))) of
             Inl e \<Rightarrow> [] | Inr ts \<Rightarrow> ts))"
  by (simp add: trending_def split: sum.splits)

lemma comprehension_replicate:
  "f x = Inr y \<Longrightarrow> comprehension f (replicate n x) = Inr (replicate n y)"
  by (induction n) (simp_all add: and_then_def)

lemma has_fields_demo_song:
  "has_fields demo_song (JStr ''v1'') (JStr ''Song'') (JStr ''First'') (JStr ''large'')"
  by (simp add: has_fields_def demo_song_def)

text \<open>
  Claim C9. Whatever the catalog client returns, \<open>trending\<close> answers with at most 15
  tracks. Where the chart is a dict holding under \<open>songs\<close> a dict holding under \<open>items\<close>
  a list, and each of its first 15 items has the fields of an entry, the answer has as
  many tracks as the first 15 items, in chart order, also when the chart lists more,
  and each track carries its item's \<open>videoId\<close>, its \<open>title\<close>, the \<open>name\<close> of the first
  of its \<open>artists\<close> and the \<open>url\<close> of the last of its \<open>thumbnails\<close>. Nothing else
  makes it answer with a track: when it answers with any, the chart has that shape and
  the tracks are those of its first 15 items.
\<close>

theorem trending_at_most_15:
  "\<exists>ts. trending (Some c) = Inr (Tracks ts) \<and> length ts \<le> 15
     \<and> (\<forall>ckvs skvs songs.
          yt_get_charts c ''IN'' = Inr (JDict ckvs)
        \<and> map_of ckvs ''songs'' = Some (JDict skvs)
        \<and> map_of skvs ''items'' = Some (JList songs)
        \<and> (\<forall>s\<in>set (take 15 songs). \<exists>vid ttl nm url. has_fields s vid ttl nm url)
        \<longrightarrow> length ts = min 15 (length songs)
          \<and> (\<forall>i<length ts.
                has_fields (songs ! i) (t_id (ts ! i)) (t_title (ts ! i)) (t_artist (ts ! i))
                  (t_thumbnail (ts ! i))))
     \<and> (ts \<noteq> [] \<longrightarrow>
          (\<exists>ckvs skvs songs.
             yt_get_charts c ''IN'' = Inr (JDict ckvs)
           \<and> map_of ckvs ''songs'' = Some (JDict skvs)
           \<and> map_of skvs ''items'' = Some (JList songs)
           \<and> length ts = min 15 (length songs)
           \<and> (\<forall>i<length ts.
                 has_fields (songs ! i) (t_id (ts ! i)) (t_title (ts ! i)) (t_artist (ts ! i))
                   (t_thumbnail (ts ! i)))))"
proof -
  let ?comp = "and_then (yt_get_charts c ''IN'') (\<lambda>charts.
                and_then (getitem charts (SKey ''songs'')) (\<lambda>sec.
                and_then (getitem sec (SKey ''items'')) (\<lambda>songs.
                and_then (slice15 songs) (comprehension track_of))))"
  let ?ts = "case ?comp of Inl e \<Rightarrow> [] | Inr ts \<Rightarrow> ts"
  have tr: "trending (Some c) = Inr (Tracks ?ts)" by (rule trending_Some)
  have nonempty: "?ts \<noteq> [] \<Longrightarrow> ?comp = Inr ?ts"
    by (cases ?comp) simp_all
  have parts: "?comp = Inr ?ts \<Longrightarrow>
      \<exists>charts sec songs sl. yt_get_charts c ''IN'' = Inr charts
           \<and> getitem charts (SKey ''songs'') = Inr sec
           \<and> getitem sec (SKey ''items'') = Inr songs
           \<and> slice15 songs = Inr sl \<and> comprehension track_of sl = Inr ?ts"
    unfolding and_then_Inr by blast
  have tracks: "\<And>xs. comprehension track_of (take 15 xs) = Inr ?ts \<Longrightarrow>
      length ?ts = min 15 (length xs)
      \<and> (\<forall>i<length ?ts.
            has_fields (xs ! i) (t_id (?ts ! i)) (t_title (?ts ! i)) (t_artist (?ts ! i))
              (t_thumbnail (?ts ! i)))"
  proof -
    fix xs assume c: "comprehension track_of (take 15 xs) = Inr ?ts"
    have n: "length ?ts = length (take 15 xs)"
      "\<forall>i<length ?ts. track_of (take 15 xs ! i) = Inr (?ts ! i)"
      using comprehension_nth[OF c] by blast+
    have l: "length ?ts = min 15 (length xs)" using n(1) by (simp add: min.commute)
    have "\<forall>i<length ?ts. track_of (xs ! i) = Inr (?ts ! i)"
    proof (intro allI impI)
      fix i assume i: "i < length ?ts"
      then have "i < 15" using l by simp
      then have "take 15 xs ! i = xs ! i" by simp
      then show "track_of (xs ! i) = Inr (?ts ! i)" using n(2) i by metis
    qed
    then show "length ?ts = min 15 (length xs)
      \<and> (\<forall>i<length ?ts.
            has_fields (xs ! i) (t_id (?ts ! i)) (t_title (?ts ! i)) (t_artist (?ts ! i))
              (t_thumbnail (?ts ! i)))"
      using l by (simp add: track_of_has_fields)
  qed
  have len: "length ?ts \<le> 15"
  proof (cases "?ts = []")
    case True
    then show ?thesis by simp
  next
    case False
    then obtain songs sl where s: "slice15 songs = Inr sl" "comprehension track_of sl = Inr ?ts"
      using parts[OF nonempty] by blast
    obtain xs where "sl = take 15 xs" using slice15_tracks[OF s False] by blast
    moreover have "length ?ts = length sl" using comprehension_nth[OF s(2)] by simp
    ultimately show ?thesis by simp
  qed
  have full: "\<forall>ckvs skvs songs.
          yt_get_charts c ''IN'' = Inr (JDict ckvs)
        \<and> map_of ckvs ''songs'' = Some (JDict skvs)
        \<and> map_of skvs ''items'' = Some (JList songs)
        \<and> (\<forall>s\<in>set (take 15 songs). \<exists>vid ttl nm url. has_fields s vid ttl nm url)
        \<longrightarrow> length ?ts = min 15 (length songs)
          \<and> (\<forall>i<length ?ts.
                has_fields (songs ! i) (t_id (?ts ! i)) (t_title (?ts ! i)) (t_artist (?ts ! i))
                  (t_thumbnail (?ts ! i)))"
  proof (intro allI impI)
    fix ckvs skvs songs
    assume h: "yt_get_charts c ''IN'' = Inr (JDict ckvs)
        \<and> map_of ckvs ''songs'' = Some (JDict skvs)
        \<and> map_of skvs ''items'' = Some (JList songs)
        \<and> (\<forall>s\<in>set (take 15 songs). \<exists>vid ttl nm url. has_fields s vid ttl nm url)"
    have "\<forall>s\<in>set (take 15 songs). \<exists>t. track_of s = Inr t"
    proof
      fix s assume "s \<in> set (take 15 songs)"
      then obtain vid ttl nm url where "has_fields s vid ttl nm url" using h by blast
      then have "track_of s = Inr \<lparr>t_id = vid, t_title = ttl, t_artist = nm, t_thumbnail = url\<rparr>"
        by (simp add: track_of_has_fields)
      then show "\<exists>t. track_of s = Inr t" by blast
    qed
    then obtain ys where ys: "comprehension track_of (take 15 songs) = Inr ys"
      using comprehension_total[of "take 15 songs" track_of] by blast
    have "?comp = Inr ys" using h ys by (simp add: and_then_def)
    then have "comprehension track_of (take 15 songs) = Inr ?ts" using ys by simp
    then show "length ?ts = min 15 (length songs)
          \<and> (\<forall>i<length ?ts.
                has_fields (songs ! i) (t_id (?ts ! i)) (t_title (?ts ! i)) (t_artist (?ts ! i))
                  (t_thumbnail (?ts ! i)))"
      by (rule tracks)
  qed
  have shape: "?ts \<noteq> [] \<longrightarrow>
          (\<exists>ckvs skvs songs.
             yt_get_charts c ''IN'' = Inr (JDict ckvs)
           \<and> map_of ckvs ''songs'' = Some (JDict skvs)
           \<and> map_of skvs ''items'' = Some (JList songs)
           \<and> length ?ts = min 15 (length songs)
           \<and> (\<forall>i<length ?ts.
                 has_fields (songs ! i) (t_id (?ts ! i)) (t_title (?ts ! i)) (t_artist (?ts ! i))
                   (t_thumbnail (?ts ! i))))"
  proof
    assume ne: "?ts \<noteq> []"
    obtain charts sec songs sl where
      p: "yt_get_charts c ''IN'' = Inr charts" "getitem charts (SKey ''songs'') = Inr sec"
         "getitem sec (SKey ''items'') = Inr songs"
         "slice15 songs = Inr sl" "comprehension track_of sl = Inr ?ts"
      using parts[OF nonempty[OF ne]] by blast
    obtain xs where xs: "songs = JList xs" "sl = take 15 xs"
      using slice15_tracks[OF p(4,5) ne] by blast
    obtain ckvs where ck: "charts = JDict ckvs" "map_of ckvs ''songs'' = Some sec"
      using p(2) getitem_SKey by blast
    obtain skvs where sk: "sec = JDict skvs" "map_of skvs ''items'' = Some songs"
      using p(3) getitem_SKey by blast
    have t: "length ?ts = min 15 (length xs)
      \<and> (\<forall>i<length ?ts.
            has_fields (xs ! i) (t_id (?ts ! i)) (t_title (?ts ! i)) (t_artist (?ts ! i))
              (t_thumbnail (?ts ! i)))"
      using p(5) unfolding xs(2) by (rule tracks)
    show "\<exists>ckvs skvs songs.
             yt_get_charts c ''IN'' = Inr (JDict ckvs)
           \<and> map_of ckvs ''songs'' = Some (JDict skvs)
           \<and> map_of skvs ''items'' = Some (JList songs)
           \<and> length ?ts = min 15 (length songs)
           \<and> (\<forall>i<length ?ts.
                 has_fields (songs ! i) (t_id (?ts ! i)) (t_title (?ts ! i)) (t_artist (?ts ! i))
                   (t_thumbnail (?ts ! i)))"
      using p(1) ck sk xs(1) t by blast
  qed
  show ?thesis using tr len full shape by blast
qed

theorem trending_at_most_15_witness:
  "trending (Some demo_client) = Inr (Tracks (replicate 15 demo_track))"
proof -
  obtain ts where t: "trending (Some demo_client) = Inr (Tracks ts)"
    and full: "\<forall>ckvs skvs songs.
          yt_get_charts demo_client ''IN'' = Inr (JDict ckvs)
        \<and> map_of ckvs ''songs'' = Some (JDict skvs)
        \<and> map_of skvs ''items'' = Some (JList songs)
        \<and> (\<forall>s\<in>set (take 15 songs). \<exists>vid ttl nm url. has_fields s vid ttl nm url)
        \<longrightarrow> length ts = min 15 (length songs)
          \<and> (\<forall>i<length ts.
                has_fields (songs ! i) (t_id (ts ! i)) (t_title (ts ! i)) (t_artist (ts ! i))
                  (t_thumbnail (ts ! i)))"
    using trending_at_most_15 [of demo_client] by blast
  have c: "yt_get_charts demo_client ''IN''
             = Inr (JDict [(''songs'', JDict [(''items'', JList (replicate 16 demo_song))])])"
    by (simp add: demo_client_def)
  have w: "\<forall>s\<in>set (take 15 (replicate 16 demo_song)). \<exists>vid ttl nm url. has_fields s vid ttl nm url"
    using has_fields_demo_song by auto
  have m: "map_of [(''songs'', JDict [(''items'', JList (replicate 16 demo_song))])] ''songs''
             = Some (JDict [(''items'', JList (replicate 16 demo_song))])"
    "map_of [(''items'', JList (replicate 16 demo_song))] ''items''
             = Some (JList (replicate 16 demo_song))"
    by simp_all
  have r: "length ts = min 15 (length (replicate 16 demo_song))
          \<and> (\<forall>i<length ts.
                has_fields (replicate 16 demo_song ! i) (t_id (ts ! i)) (t_title (ts ! i))
                  (t_artist (ts ! i)) (t_thumbnail (ts ! i)))"
    using full c m w by blast
  have l: "length ts = 15" using r by simp
  have "\<forall>i<length ts. ts ! i = demo_track"
  proof (intro allI impI)
    fix i assume i: "i < length ts"
    then have "replicate 16 demo_song ! i = demo_song" using l by simp
    then have "has_fields demo_song (t_id (ts ! i)) (t_title (ts ! i)) (t_artist (ts ! i))
                 (t_thumbnail (ts ! i))"
      using r i by metis
    then have "t_id (ts ! i) = JStr ''v1'' \<and> t_title (ts ! i) = JStr ''Song''
             \<and> t_artist (ts ! i) = JStr ''First'' \<and> t_thumbnail (ts ! i) = JStr ''large''"
      using has_fields_unique[OF has_fields_demo_song] by blast
    then show "ts ! i = demo_track" by (cases "ts ! i") (simp add: demo_track_def)
  qed
  then have "ts = replicate 15 demo_track"
    using l by (intro nth_equalityI) simp_all
  then show ?thesis using t by simp
qed

lemma search_Some:
  "search (Some c) q =
     Inr (Tracks (case and_then (yt_search c q ''songs'') (\<lambda>results.
                and_then (iterate results) (comprehension track_of)) of
             Inl e \<Rightarrow> [] | Inr ts \<Rightarrow> ts))"
  by (simp add: search_def split: sum.splits)

text \<open>
  Claim C8. Without a catalog client, \<open>trending\<close> and \<open>search\<close> return the payload
  "YouTube Music service unavailable" with 503. When the client's call raises, each
  returns the empty list. Neither handler ever raises.
\<close>

theorem catalog_failures_swallowed:
  "trending None = Inr (ErrorTuple ''YouTube Music service unavailable'' 503)
   \<and> search None q = Inr (ErrorTuple ''YouTube Music service unavailable'' 503)
   \<and> (\<forall>e. yt_get_charts c ''IN'' = Inl e \<longrightarrow> trending (Some c) = Inr (Tracks []))
   \<and> (\<forall>e. yt_search c q ''songs'' = Inl e \<longrightarrow> search (Some c) q = Inr (Tracks []))
   \<and> (\<exists>r. trending yt = Inr r)
   \<and> (\<exists>r. search yt q = Inr r)"
proof (intro conjI allI impI)
  show "trending None = Inr (ErrorTuple ''YouTube Music service unavailable'' 503)"
    by (simp add: trending_def)
  show "search None q = Inr (ErrorTuple ''YouTube Music service unavailable'' 503)"
    by (simp add: search_def)
  show "\<exists>r. trending yt = Inr r"
    by (cases yt) (simp_all add: trending_def split: sum.splits)
  show "\<exists>r. search yt q = Inr r"
    by (cases yt) (simp_all add: search_def split: sum.splits)
next
  fix e assume "yt_get_charts c ''IN'' = Inl e"
  then show "trending (Some c) = Inr (Tracks [])"
    by (simp add: trending_Some and_then_def)
next
  fix e assume "yt_search c q ''songs'' = Inl e"
  then show "search (Some c) q = Inr (Tracks [])"
    by (simp add: search_Some and_then_def)
qed

theorem catalog_failures_swallowed_witness:
  "trending (Some failing_client) = Inr (Tracks [])
   \<and> search (Some failing_client) ''abc'' = Inr (Tracks [])
   \<and> trending None = Inr (ErrorTuple ''YouTube Music service unavailable'' 503)"
  using catalog_failures_swallowed [of "''abc''" failing_client None]
  by (simp add: failing_client_def)

section \<open>Constraints of the database; validation in register\<close>

lemma register_constraints:
  assumes "constraints db"
  shows "constraints (snd (register B salt data db))"
proof (cases "first (filter (\<lambda>u. u_username u = the (username data)) (users db))")
  case None
  then have new: "\<forall>u\<in>set (users db). u_username u \<noteq> the (username data)"
    by (simp add: first_filter_None)
  have lt: "\<forall>u\<in>set (users db). u_id u < users_id_seq db"
    using assms by (simp add: constraints_def list_all_iff)
  then have fresh: "users_id_seq db \<notin> u_id ` set (users db)" by force
  have fresh_name: "the (username data) \<notin> u_username ` set (users db)" using new by force
  show ?thesis
    using assms None fresh fresh_name lt
    by (auto simp: register_def subscript_def add_user_def hash_password_def constraints_def
          list_all_iff split: option.splits)
next
  case (Some a)
  then show ?thesis using assms
    by (auto simp: register_def subscript_def split: option.splits)
qed

lemma toggle_like_constraints:
  assumes "constraints db"
  shows "constraints (snd (toggle_like data db))"
proof -
  have lt: "\<forall>l\<in>set (liked_songs db). l_id l < liked_songs_id_seq db"
    using assms by (simp add: constraints_def list_all_iff)
  then have fresh: "liked_songs_id_seq db \<notin> l_id ` set (liked_songs db)" by force
  show ?thesis
    using assms fresh lt
    by (auto simp: toggle_like_def subscript_def constraints_def list_all_iff
          delete_liked_song_def add_liked_song_def distinct_map_filter
          split: option.splits)
qed

lemma step_constraints: "constraints db \<Longrightarrow> constraints (step B r db)"
  by (cases r) (simp_all add: register_constraints toggle_like_constraints)

lemma run_constraints: "constraints db \<Longrightarrow> constraints (run B rs db)"
  by (induction rs arbitrary: db) (simp_all add: step_constraints)

text \<open>
  Starting from an empty database, after any sequence of requests the usernames, the
  user ids and the ids of the liked rows are each unique, and no stored track id holds
  NUL: the conditions under which the properties of \<open>login\<close> and of deleting a like
  are stated hold in every reachable database.
\<close>

theorem run_keeps_keys_unique:
  "distinct (map u_username (users (run B rs (empty_database fk))))
   \<and> distinct (map u_id (users (run B rs (empty_database fk))))
   \<and> distinct (map l_id (liked_songs (run B rs (empty_database fk))))
   \<and> list_all (\<lambda>l. \<not> has_nul (l_song_id l)) (liked_songs (run B rs (empty_database fk)))"
proof -
  have "constraints (empty_database fk)"
    by (simp add: constraints_def empty_database_def)
  then have "constraints (run B rs (empty_database fk))" by (rule run_constraints)
  then show ?thesis by (simp add: constraints_def)
qed

theorem run_keeps_keys_unique_witness:
  "distinct (map u_username (users (run toy_bcrypt
      [Register ''s'' \<lparr>username = Some ''bob'', password = Some ''pw123''\<rparr>,
       Register ''s'' \<lparr>username = Some ''bob'', password = Some ''pw456''\<rparr>]
      (empty_database True))))"
  using run_keeps_keys_unique
    [of toy_bcrypt
      "[Register ''s'' \<lparr>username = Some ''bob'', password = Some ''pw123''\<rparr>,
        Register ''s'' \<lparr>username = Some ''bob'', password = Some ''pw456''\<rparr>]" True]
  by simp

text \<open>
  \<open>register\<close> with a username or a password that is absent or empty fails with 400
  "Username and password required" and leaves the database as it was.
\<close>

theorem register_requires_fields:
  assumes "\<not> truthy (username data) \<or> \<not> truthy (password data)"
  shows "register B salt data db =
           (Inl (HTTPException 400 ''Username and password required''), db)"
  using assms by (auto simp: register_def)

theorem register_requires_fields_witness:
  "register toy_bcrypt ''s'' \<lparr>username = Some '''', password = Some ''pw''\<rparr> (empty_database True)
     = (Inl (HTTPException 400 ''Username and password required''), empty_database True)
   \<and> register toy_bcrypt ''s'' \<lparr>username = Some ''bob'', password = None\<rparr> (empty_database True)
     = (Inl (HTTPException 400 ''Username and password required''), empty_database True)"
  using register_requires_fields
      [of "\<lparr>username = Some '''', password = Some ''pw''\<rparr>" toy_bcrypt "''s''" "empty_database True"]
    register_requires_fields
      [of "\<lparr>username = Some ''bob'', password = None\<rparr>" toy_bcrypt "''s''" "empty_database True"]
  by (simp add: truthy_def)

end
